theory Spec2Isabelle
  imports Main "HOL-Library.Word" "HOL-Library.Product_Lexorder"
begin

unbundle bit_operations_syntax

section \<open>Errors\<close>

text \<open>
  Every \<^verbatim>\<open>raise\<close> of \<^verbatim>\<open>set_refresh_rate.py\<close> is a \<^verbatim>\<open>RuntimeError\<close> whose
  message is an f-string. A message is kept here in structured form: one constructor per
  message template, with the interpolated values as arguments.  \<open>ValueError\<close> is what
  Python's \<^verbatim>\<open>max\<close> and \<^verbatim>\<open>min\<close> raise on an empty sequence, and \<open>OSError\<close> stands for
  an exception raised by a foreign call itself.
\<close>

datatype message =
    Unable_to_get_current_display_settings
  | Requested_not_supported int "int \<times> int" "int list"
  | Unable_to_read_current_settings_into_new_DEVMODE
  | Test_change_failed int
  | Change_failed int
  | GetSystemPowerStatus_failed

datatype error = RuntimeError message | ValueError | OSError

section \<open>The Win32 display boundary\<close>

text \<open>
  \<^verbatim>\<open>DEVMODEW\<close>, restricted to the members the program reads or writes; each is a
  \<^verbatim>\<open>DWORD\<close>. The remaining members are filled by the operating system and handed back
  to it untouched.
\<close>

record devmode =
  dmFields :: "32 word"
  dmBitsPerPel :: "32 word"
  dmPelsWidth :: "32 word"
  dmPelsHeight :: "32 word"
  dmDisplayFrequency :: "32 word"

definition ENUM_CURRENT_SETTINGS :: int where
  "ENUM_CURRENT_SETTINGS = - 1"

definition DM_DISPLAYFREQUENCY :: "32 word" where
  "DM_DISPLAYFREQUENCY = 0x00400000"

definition CDS_TEST :: "32 word" where
  "CDS_TEST = 0x00000002"

definition DISP_CHANGE_SUCCESSFUL :: int where
  "DISP_CHANGE_SUCCESSFUL = 0"

text \<open>
  The display driver as the program sees it during one call:
  \<^item> \<open>current_settings\<close>: the answer to \<^verbatim>\<open>EnumDisplaySettingsW\<close> with
    \<^verbatim>\<open>ENUM_CURRENT_SETTINGS\<close>: the filled structure, \<open>None\<close> for a zero return, or an
    exception raised by the call;
  \<^item> \<open>current_settings_reread\<close>: the answer to the same query when
    \<^verbatim>\<open>set_refresh_rate\<close> repeats it (line 175), after the enumeration; the driver is
    free to answer differently from the first time;
  \<^item> \<open>mode_answers\<close>: the answers to \<^verbatim>\<open>EnumDisplaySettingsW\<close> for the mode numbers
    0, 1, 2, ...; past the end of this list the call returns zero;
  \<^item> \<open>change_status\<close>: the \<^verbatim>\<open>LONG\<close> that \<^verbatim>\<open>ChangeDisplaySettingsExW\<close> returns for
    a structure and a flags word.
\<close>

record display =
  current_settings :: "error + devmode option"
  current_settings_reread :: "error + devmode option"
  mode_answers :: "(error + devmode) list"
  change_status :: "devmode \<Rightarrow> 32 word \<Rightarrow> int"

definition EnumDisplaySettingsW :: "display \<Rightarrow> int \<Rightarrow> error + devmode option" where
  "EnumDisplaySettingsW d iModeNum =
     (if iModeNum = ENUM_CURRENT_SETTINGS then current_settings d
      else if 0 \<le> iModeNum \<and> nat iModeNum < length (mode_answers d)
      then (case mode_answers d ! nat iModeNum of Inl e \<Rightarrow> Inl e | Inr dm \<Rightarrow> Inr (Some dm))
      else Inr None)"

text \<open>A call of \<^verbatim>\<open>ChangeDisplaySettingsExW\<close>: the structure passed and the flags.\<close>

datatype os_call = ChangeDisplaySettingsExW devmode "32 word"

type_synonym mode = "int \<times> int \<times> int \<times> int"

text \<open>The tuple \<^verbatim>\<open>list_modes\<close> appends: width, height, bits per pixel, frequency.\<close>

definition mode_tuple :: "devmode \<Rightarrow> mode" where
  "mode_tuple dm =
     (uint (dmPelsWidth dm), uint (dmPelsHeight dm), uint (dmBitsPerPel dm),
      uint (dmDisplayFrequency dm))"

section \<open>Enumerating modes and rates\<close>

text \<open>
  The \<^verbatim>\<open>while True\<close> loop of \<^verbatim>\<open>list_modes\<close>: it stops at the first zero return,
  and an exception of the call leaves the function.
\<close>

function list_modes_loop :: "display \<Rightarrow> nat \<Rightarrow> mode list \<Rightarrow> error + mode list" where
  "list_modes_loop d i modes =
     (case EnumDisplaySettingsW d (int i) of
        Inl e \<Rightarrow> Inl e
      | Inr None \<Rightarrow> Inr modes
      | Inr (Some dm) \<Rightarrow> list_modes_loop d (i + 1) (modes @ [mode_tuple dm]))"
  by pat_completeness auto
termination
  by (relation "measure (\<lambda>(d, i, modes). length (mode_answers d) - i)")
     (auto simp: EnumDisplaySettingsW_def ENUM_CURRENT_SETTINGS_def split: if_splits)

declare list_modes_loop.simps [simp del]

text \<open>
  \<^verbatim>\<open>sorted(set(modes), key=lambda x: (x[0], x[1], x[3], x[2]))\<close>. The key is injective,
  so the result does not depend on the order in which the set is traversed.
\<close>

definition list_modes :: "display \<Rightarrow> error + mode list" where
  "list_modes d =
     (case list_modes_loop d 0 [] of
        Inl e \<Rightarrow> Inl e
      | Inr modes \<Rightarrow> Inr (sort_key (\<lambda>(w, h, bpp, r). (w, h, r, bpp)) (remdups modes)))"

definition get_current_mode :: "display \<Rightarrow> error + devmode option" where
  "get_current_mode d = EnumDisplaySettingsW d ENUM_CURRENT_SETTINGS"

definition fallback_rates :: "int list" where
  "fallback_rates = [60, 120, 144, 165, 240]"

text \<open>
  \<^verbatim>\<open>get_available_refresh_rates\<close>: the whole body is inside \<^verbatim>\<open>try\<close>, so every
  exception ends in the fallback tuple.
\<close>

definition get_available_refresh_rates :: "display \<Rightarrow> int list" where
  "get_available_refresh_rates d =
     (case get_current_mode d of
        Inl e \<Rightarrow> fallback_rates
      | Inr None \<Rightarrow> fallback_rates
      | Inr (Some dm) \<Rightarrow>
          (let current_resolution = (uint (dmPelsWidth dm), uint (dmPelsHeight dm)) in
           case list_modes d of
             Inl e \<Rightarrow> fallback_rates
           | Inr all_modes \<Rightarrow>
               (let available_rates =
                      sort (remdups [refresh_rate.
                                       (width, height, bpp, refresh_rate) \<leftarrow> all_modes,
                                       (width, height) = current_resolution])
                in if available_rates = [] then fallback_rates else available_rates)))"

section \<open>Changing the refresh rate\<close>

text \<open>
  \<^verbatim>\<open>set_refresh_rate(target_hz, device_name, test_first)\<close> returns the calls of
  \<^verbatim>\<open>ChangeDisplaySettingsExW\<close> it made, in order, and either \<open>True\<close> or the exception
  it raised. The target is validated against the first reading of the current mode
  (\<open>get_current_mode\<close>, line 162); the structure that is changed and passed on is filled by
  the second reading (\<open>current_settings_reread\<close>, line 175). Storing \<^verbatim>\<open>int(target_hz)\<close>
  in a \<^verbatim>\<open>DWORD\<close> member keeps the low 32 bits.
\<close>

definition set_refresh_rate :: "int \<Rightarrow> bool \<Rightarrow> display \<Rightarrow> os_call list \<times> (error + bool)" where
  "set_refresh_rate target_hz test_first d =
     (case get_current_mode d of
        Inl e \<Rightarrow> ([], Inl e)
      | Inr None \<Rightarrow> ([], Inl (RuntimeError Unable_to_get_current_display_settings))
      | Inr (Some dm) \<Rightarrow>
          (let cur_res = (uint (dmPelsWidth dm), uint (dmPelsHeight dm)) in
           case list_modes d of
             Inl e \<Rightarrow> ([], Inl e)
           | Inr modes \<Rightarrow>
               (let valid_rates = [r. (w, h, bpp, r) \<leftarrow> modes, (w, h) = cur_res] in
                if target_hz \<notin> set valid_rates
                then ([], Inl (RuntimeError
                        (Requested_not_supported target_hz cur_res (sort (remdups valid_rates)))))
                else
                  (case current_settings_reread d of
                     Inl e \<Rightarrow> ([], Inl e)
                   | Inr None \<Rightarrow>
                       ([], Inl (RuntimeError Unable_to_read_current_settings_into_new_DEVMODE))
                   | Inr (Some new_dm0) \<Rightarrow>
                       (let new_dm = new_dm0
                              \<lparr>dmDisplayFrequency := word_of_int target_hz,
                               dmFields := dmFields new_dm0 OR DM_DISPLAYFREQUENCY\<rparr>;
                            test = ChangeDisplaySettingsExW new_dm CDS_TEST;
                            commit = ChangeDisplaySettingsExW new_dm 0
                        in if test_first \<and> change_status d new_dm CDS_TEST \<noteq> DISP_CHANGE_SUCCESSFUL
                           then ([test], Inl (RuntimeError
                                   (Test_change_failed (change_status d new_dm CDS_TEST))))
                           else if change_status d new_dm 0 \<noteq> DISP_CHANGE_SUCCESSFUL
                           then ((if test_first then [test] else []) @ [commit],
                                 Inl (RuntimeError (Change_failed (change_status d new_dm 0))))
                           else ((if test_first then [test] else []) @ [commit], Inr True))))))"

section \<open>Automatic rate selection\<close>

text \<open>
  Python's \<^verbatim>\<open>max(seq)\<close> and \<^verbatim>\<open>min(seq)\<close>: the first item is the candidate, a later
  item replaces it when it is strictly greater (smaller); an empty sequence raises.
\<close>

fun py_max :: "int list \<Rightarrow> error + int" where
  "py_max [] = Inl ValueError"
| "py_max (x # xs) = Inr (foldl (\<lambda>m y. if y > m then y else m) x xs)"

fun py_min :: "int list \<Rightarrow> error + int" where
  "py_min [] = Inl ValueError"
| "py_min (x # xs) = Inr (foldl (\<lambda>m y. if y < m then y else m) x xs)"

text \<open>
  The target expression that \<^verbatim>\<open>poll_loop\<close> (lines 403-408) and
  \<^verbatim>\<open>on_apply_clicked\<close> (lines 308-313) both spell out:
  \<^verbatim>\<open>240 if 240 in rates else max(rates)\<close> when plugged in,
  \<^verbatim>\<open>60 if 60 in rates else min(rates)\<close> otherwise.
\<close>

definition auto_target :: "bool \<Rightarrow> int list \<Rightarrow> error + int" where
  "auto_target plugged rates =
     (if plugged
      then (if 240 \<in> set rates then Inr 240 else py_max rates)
      else (if 60 \<in> set rates then Inr 60 else py_min rates))"

section \<open>Power status\<close>

text \<open>
  What \<^verbatim>\<open>GetSystemPowerStatus\<close> answers: its \<^verbatim>\<open>BOOL\<close> result and the
  \<^verbatim>\<open>ACLineStatus\<close> member it fills (\<^verbatim>\<open>wintypes.BYTE\<close> is a signed byte in ctypes:
  0 is offline, 1 is online, 255 is unknown).
\<close>

record power_answer =
  succeeded :: bool
  ACLineStatus :: "8 word"

definition is_plugged_in :: "power_answer \<Rightarrow> error + bool" where
  "is_plugged_in p =
     (if \<not> succeeded p then Inl (RuntimeError GetSystemPowerStatus_failed)
      else Inr (sint (ACLineStatus p) = 1))"

section \<open>The window and the polling thread\<close>

text \<open>
  The members of \<^verbatim>\<open>RefreshGUI\<close> that decide a target rate.  \<^verbatim>\<open>available_rates\<close> is
  assigned in \<^verbatim>\<open>__init__\<close> and nowhere else.
\<close>

record gui =
  override_var :: bool
  selected_rate :: int
  available_rates :: "int list"

definition RefreshGUI_init :: "display \<Rightarrow> gui" where
  "RefreshGUI_init d =
     (let rates = get_available_refresh_rates d;
          default_rate =
            (if 240 \<in> set rates then 240
             else (case py_max rates of Inr m \<Rightarrow> m | Inl e \<Rightarrow> 60))
      in \<lparr>override_var = False, selected_rate = default_rate, available_rates = rates\<rparr>)"

text \<open>
  What the program does that can be observed: the texts it sets, the message boxes it
  shows, and each invocation of \<^verbatim>\<open>set_refresh_rate(target)\<close> with the driver calls it
  made and its outcome.
\<close>

datatype event =
    Status_text string
  | Rate_label int
  | Show_warning error
  | Show_error error
  | Set_refresh_rate int "os_call list" "error + bool"

fun applied :: "event \<Rightarrow> int list" where
  "applied (Set_refresh_rate target calls outcome) = [target]"
| "applied _ = []"

definition applies :: "event list \<Rightarrow> int list" where
  "applies evs = concat (map applied evs)"

text \<open>
  One iteration of \<^verbatim>\<open>poll_loop\<close> meets an answer of the power query, the state of the
  override checkbox and a state of the display driver.
\<close>

record tick =
  power_status :: power_answer
  override :: bool
  screen :: display

text \<open>
  The body of the \<^verbatim>\<open>while self.running\<close> loop, from \<open>last_plugged\<close> to the events of the
  iteration and the new \<open>last_plugged\<close>.  The target expression is outside the inner
  \<^verbatim>\<open>try\<close>, so an exception of \<^verbatim>\<open>max\<close> or \<^verbatim>\<open>min\<close> leaves the loop.
  Scheduling a call on the Tk main thread (\<^verbatim>\<open>root.after\<close>) is taken to succeed.
\<close>

definition poll_step :: "int list \<Rightarrow> bool option \<Rightarrow> tick \<Rightarrow> event list \<times> (error + bool option)" where
  "poll_step rates last_plugged t =
     (let plugged = (case is_plugged_in (power_status t) of Inl e \<Rightarrow> None | Inr b \<Rightarrow> Some b);
          status_text =
            (if plugged = Some True then ''Plugged In (Charging)''
             else if plugged \<noteq> None then ''On Battery (Discharging)''
             else ''Unknown'')
      in if plugged \<noteq> None \<and> (last_plugged = None \<or> plugged \<noteq> last_plugged)
         then
           (if \<not> override t
            then
              (case auto_target (plugged = Some True) rates of
                 Inl e \<Rightarrow> ([Status_text status_text], Inl e)
               | Inr target \<Rightarrow>
                   (case set_refresh_rate target True (screen t) of
                      (calls, Inr ok) \<Rightarrow>
                        ([Status_text status_text, Set_refresh_rate target calls (Inr ok),
                          Rate_label target], Inr plugged)
                    | (calls, Inl e) \<Rightarrow>
                        ([Status_text status_text, Set_refresh_rate target calls (Inl e),
                          Show_warning e], Inr plugged)))
            else ([Status_text status_text], Inr plugged))
         else ([Status_text status_text], Inr plugged))"

text \<open>
  \<^verbatim>\<open>poll_loop\<close> over the iterations made while \<^verbatim>\<open>self.running\<close> holds: the events
  of each iteration, and the exception that ended the thread, if one did.
\<close>

fun poll_loop :: "int list \<Rightarrow> bool option \<Rightarrow> tick list \<Rightarrow> event list list \<times> error option" where
  "poll_loop rates last_plugged [] = ([], None)"
| "poll_loop rates last_plugged (t # ts) =
     (case poll_step rates last_plugged t of
        (evs, Inl e) \<Rightarrow> ([evs], Some e)
      | (evs, Inr plugged) \<Rightarrow>
          (case poll_loop rates plugged ts of (rest, ended) \<Rightarrow> (evs # rest, ended)))"

text \<open>
  \<^verbatim>\<open>on_apply_clicked\<close>: the whole body is inside \<^verbatim>\<open>try\<close>; the power query is made
  only when the override is off.
\<close>

definition on_apply_clicked :: "gui \<Rightarrow> power_answer \<Rightarrow> display \<Rightarrow> event list" where
  "on_apply_clicked g p d =
     (case (if override_var g then Inr (selected_rate g)
            else (case is_plugged_in p of
                    Inl e \<Rightarrow> Inl e
                  | Inr plugged \<Rightarrow> auto_target plugged (available_rates g))) of
        Inl e \<Rightarrow> [Show_error e]
      | Inr target \<Rightarrow>
          (case set_refresh_rate target True d of
             (calls, Inr ok) \<Rightarrow> [Set_refresh_rate target calls (Inr ok), Rate_label target]
           | (calls, Inl e) \<Rightarrow> [Set_refresh_rate target calls (Inl e), Show_error e]))"

section \<open>Sample drivers and power answers\<close>

text \<open>Concrete inputs on which the theorems below are instantiated.\<close>

definition full_hd :: "32 word \<Rightarrow> devmode" where
  "full_hd hz =
     \<lparr>dmFields = 0x005C0000, dmBitsPerPel = 32, dmPelsWidth = 1920, dmPelsHeight = 1080,
      dmDisplayFrequency = hz\<rparr>"

definition quad_hd :: "32 word \<Rightarrow> devmode" where
  "quad_hd hz =
     \<lparr>dmFields = 0x005C0000, dmBitsPerPel = 32, dmPelsWidth = 2560, dmPelsHeight = 1440,
      dmDisplayFrequency = hz\<rparr>"

text \<open>
  A driver that reports \<open>cur\<close> as the current mode, both times, enumerates \<open>ms\<close>
  without an exception, and answers a test with \<open>test_code\<close> and a commit with
  \<open>commit_code\<close>.
\<close>

definition driver :: "devmode \<Rightarrow> devmode list \<Rightarrow> int \<Rightarrow> int \<Rightarrow> display" where
  "driver cur ms test_code commit_code =
     \<lparr>current_settings = Inr (Some cur), current_settings_reread = Inr (Some cur),
      mode_answers = map Inr ms,
      change_status = (\<lambda>dm flags. if flags = CDS_TEST then test_code else commit_code)\<rparr>"

definition sample :: "8 word \<Rightarrow> bool \<Rightarrow> display \<Rightarrow> tick" where
  "sample line ov d =
     \<lparr>power_status = \<lparr>succeeded = True, ACLineStatus = line\<rparr>, override = ov, screen = d\<rparr>"

definition failed_sample :: "bool \<Rightarrow> display \<Rightarrow> tick" where
  "failed_sample ov d =
     \<lparr>power_status = \<lparr>succeeded = False, ACLineStatus = 0\<rparr>, override = ov, screen = d\<rparr>"

section \<open>Auxiliary notions\<close>

text \<open>
  The rates a list of mode tuples offers at a resolution: the comprehension of line 168,
  which is also what the loop of lines 139-142 collects.
\<close>

definition rates_at :: "mode list \<Rightarrow> int \<times> int \<Rightarrow> int list" where
  "rates_at modes res = [r. (w, h, bpp, r) \<leftarrow> modes, (w, h) = res]"

section \<open>Properties of the automatic selection\<close>

lemma foldl_max_Max:
  "foldl (\<lambda>m y. if y > m then y else m) x xs = Max (insert (x::int) (set xs))"
proof (induction xs arbitrary: x)
  case Nil
  show ?case by simp
next
  case (Cons y ys)
  have "Max (insert (if x < y then y else x) (set ys)) = Max (insert x (insert y (set ys)))"
    by (cases "set ys = {}") (auto simp: max_def)
  with Cons show ?case by simp
qed

lemma foldl_min_Min:
  "foldl (\<lambda>m y. if y < m then y else m) x xs = Min (insert (x::int) (set xs))"
proof (induction xs arbitrary: x)
  case Nil
  show ?case by simp
next
  case (Cons y ys)
  have "Min (insert (if y < x then y else x) (set ys)) = Min (insert x (insert y (set ys)))"
    by (cases "set ys = {}") (auto simp: min_def)
  with Cons show ?case by simp
qed

lemma py_max_Max: "rates \<noteq> [] \<Longrightarrow> py_max rates = Inr (Max (set rates))"
  by (cases rates) (simp_all add: foldl_max_Max)

lemma py_min_Min: "rates \<noteq> [] \<Longrightarrow> py_min rates = Inr (Min (set rates))"
  by (cases rates) (simp_all add: foldl_min_Min)

text \<open>
  Claim C5. For a non-empty sequence of available rates the automatic target is 240 when
  240 is available and the largest rate otherwise while plugged in, and 60 when 60 is
  available and the smallest rate otherwise while on battery; on the four sample sets of
  the specification the results are 240, 120, 60 and 120.
\<close>

theorem auto_target_prefers_240_and_60:
  "rates \<noteq> [] \<Longrightarrow>
     auto_target True rates = Inr (if 240 \<in> set rates then 240 else Max (set rates)) \<and>
     auto_target False rates = Inr (if 60 \<in> set rates then 60 else Min (set rates)) \<and>
     auto_target True [60, 144, 240] = Inr 240 \<and>
     auto_target True [60, 120] = Inr 120 \<and>
     auto_target False [60, 144, 240] = Inr 60 \<and>
     auto_target False [120, 144] = Inr 120"
  by (simp add: auto_target_def py_max_Max py_min_Min)

theorem auto_target_prefers_240_and_60_witness:
  "[165, 75, 144] \<noteq> ([] :: int list) \<and>
   auto_target True [165, 75, 144] = Inr 165 \<and>
   auto_target False [165, 75, 144] = Inr 75"
  using auto_target_prefers_240_and_60 [of "[165, 75, 144]"] by simp

section \<open>Enumeration and validation\<close>

lemma set_rates_at: "set (rates_at modes (a, b)) = {r. \<exists>bpp. (a, b, bpp, r) \<in> set modes}"
  unfolding rates_at_def by force

lemma sort_remdups_Nil: "sort (remdups xs) = [] \<longleftrightarrow> xs = []"
proof -
  have "set (sort (remdups xs)) = set xs" by simp
  then show ?thesis using set_empty by metis
qed

lemma get_available_refresh_rates_eq:
  assumes "get_current_mode d = Inr (Some dm)" "list_modes d = Inr modes"
  shows "get_available_refresh_rates d =
      (if rates_at modes (uint (dmPelsWidth dm), uint (dmPelsHeight dm)) = [] then fallback_rates
       else sort (remdups (rates_at modes (uint (dmPelsWidth dm), uint (dmPelsHeight dm)))))"
  unfolding get_available_refresh_rates_def assms Let_def rates_at_def [symmetric]
  by (simp add: sort_remdups_Nil)


lemma set_refresh_rate_invalid:
  assumes "get_current_mode d = Inr (Some dm)" "list_modes d = Inr modes"
    and "target_hz \<notin> set (rates_at modes (uint (dmPelsWidth dm), uint (dmPelsHeight dm)))"
  shows "set_refresh_rate target_hz test_first d =
      ([], Inl (RuntimeError (Requested_not_supported target_hz
         (uint (dmPelsWidth dm), uint (dmPelsHeight dm))
         (sort (remdups (rates_at modes (uint (dmPelsWidth dm), uint (dmPelsHeight dm))))))))"
  unfolding set_refresh_rate_def assms(1,2) Let_def rates_at_def [symmetric]
  using assms(3) by simp

lemma set_refresh_rate_valid:
  assumes "get_current_mode d = Inr (Some dm)" "list_modes d = Inr modes"
    and "target_hz \<in> set (rates_at modes (uint (dmPelsWidth dm), uint (dmPelsHeight dm)))"
    and "current_settings_reread d = Inr (Some cur)"
    and "new_dm = cur\<lparr>dmDisplayFrequency := word_of_int target_hz,
                      dmFields := dmFields cur OR DM_DISPLAYFREQUENCY\<rparr>"
  shows "set_refresh_rate target_hz test_first d =
      (if test_first \<and> change_status d new_dm CDS_TEST \<noteq> DISP_CHANGE_SUCCESSFUL
       then ([ChangeDisplaySettingsExW new_dm CDS_TEST],
             Inl (RuntimeError (Test_change_failed (change_status d new_dm CDS_TEST))))
       else if change_status d new_dm 0 \<noteq> DISP_CHANGE_SUCCESSFUL
       then ((if test_first then [ChangeDisplaySettingsExW new_dm CDS_TEST] else []) @
               [ChangeDisplaySettingsExW new_dm 0],
             Inl (RuntimeError (Change_failed (change_status d new_dm 0))))
       else ((if test_first then [ChangeDisplaySettingsExW new_dm CDS_TEST] else []) @
               [ChangeDisplaySettingsExW new_dm 0], Inr True))"
  unfolding set_refresh_rate_def assms(1,2,4) Let_def rates_at_def [symmetric]
  using assms(3) by (simp add: assms(5))

lemma set_refresh_rate_reread_failed:
  assumes "get_current_mode d = Inr (Some dm)" "list_modes d = Inr modes"
    and "target_hz \<in> set (rates_at modes (uint (dmPelsWidth dm), uint (dmPelsHeight dm)))"
  shows "current_settings_reread d = Inr None \<Longrightarrow>
      set_refresh_rate target_hz test_first d =
        ([], Inl (RuntimeError Unable_to_read_current_settings_into_new_DEVMODE))"
    and "current_settings_reread d = Inl e \<Longrightarrow>
      set_refresh_rate target_hz test_first d = ([], Inl e)"
  unfolding set_refresh_rate_def assms(1,2) Let_def rates_at_def [symmetric]
  using assms(3) by simp_all

text \<open>
  Python's \<^verbatim>\<open>set\<close> is traversed in no guaranteed order. The sort key of
  \<^verbatim>\<open>list_modes\<close> is injective, so sorting any duplicate-free listing of the same set
  gives the same list: the model's \<open>remdups\<close> decides nothing.
\<close>

lemma sort_key_distinct_unique:
  assumes "inj k" and "set xs = set ys" and "distinct xs" and "distinct ys"
  shows "sort_key k xs = sort_key k ys"
proof -
  have "map k (sort_key k xs) = map k (sort_key k ys)"
  proof (rule sorted_distinct_set_unique)
    show "distinct (map k (sort_key k xs))" "distinct (map k (sort_key k ys))"
      using assms by (simp_all add: distinct_map inj_on_subset [OF \<open>inj k\<close>])
    show "set (map k (sort_key k xs)) = set (map k (sort_key k ys))"
      using assms(2) by simp
  qed simp_all
  with \<open>inj k\<close> show ?thesis
    by (simp add: inj_map_eq_map)
qed

lemma mode_key_inj: "inj (\<lambda>(w, h, bpp, r). (w, h, r, bpp))"
  by (auto simp: inj_on_def)

lemma list_modes_order_independent:
  "set modes = set modes' \<Longrightarrow>
     sort_key (\<lambda>(w, h, bpp, r). (w, h, r, bpp)) (remdups modes) =
     sort_key (\<lambda>(w, h, bpp, r). (w :: int, h :: int, r :: int, bpp :: int)) (remdups modes')"
  by (rule sort_key_distinct_unique [OF mode_key_inj]) simp_all

lemma list_modes_loop_all_ok:
  "mode_answers d = map Inr dms \<Longrightarrow> i \<le> length dms \<Longrightarrow>
     list_modes_loop d i acc = Inr (acc @ map mode_tuple (drop i dms))"
proof (induction "length dms - i" arbitrary: i acc)
  case 0
  then have "EnumDisplaySettingsW d (int i) = Inr None"
    by (simp add: EnumDisplaySettingsW_def ENUM_CURRENT_SETTINGS_def)
  with 0 show ?case
    by (simp add: list_modes_loop.simps [of d i acc])
next
  case (Suc n)
  then have i: "i < length dms" by simp
  with Suc.prems have "EnumDisplaySettingsW d (int i) = Inr (Some (dms ! i))"
    by (simp add: EnumDisplaySettingsW_def ENUM_CURRENT_SETTINGS_def)
  moreover have "list_modes_loop d (i + 1) (acc @ [mode_tuple (dms ! i)]) =
      Inr ((acc @ [mode_tuple (dms ! i)]) @ map mode_tuple (drop (i + 1) dms))"
    using Suc.hyps(1) [of "i + 1"] Suc.hyps(2) Suc.prems i by simp
  moreover have "drop i dms = dms ! i # drop (i + 1) dms"
    using i by (simp add: Cons_nth_drop_Suc)
  ultimately show ?case
    by (simp add: list_modes_loop.simps [of d i acc])
qed

lemma list_modes_loop_raises:
  "mode_answers d = map Inr dms @ Inl e # rest \<Longrightarrow> i \<le> length dms \<Longrightarrow>
     list_modes_loop d i acc = Inl e"
proof (induction "length dms - i" arbitrary: i acc)
  case 0
  then have "EnumDisplaySettingsW d (int i) = Inl e"
    by (simp add: EnumDisplaySettingsW_def ENUM_CURRENT_SETTINGS_def nth_append)
  then show ?case
    by (simp add: list_modes_loop.simps [of d i acc])
next
  case (Suc n)
  then have i: "i < length dms" by simp
  with Suc.prems have "EnumDisplaySettingsW d (int i) = Inr (Some (dms ! i))"
    by (simp add: EnumDisplaySettingsW_def ENUM_CURRENT_SETTINGS_def nth_append)
  moreover have "list_modes_loop d (i + 1) (acc @ [mode_tuple (dms ! i)]) = Inl e"
    using Suc.hyps(1) [of "i + 1"] Suc.hyps(2) Suc.prems i by simp
  ultimately show ?case
    by (simp add: list_modes_loop.simps [of d i acc])
qed

lemma list_modes_all_ok:
  assumes "mode_answers d = map Inr dms"
  obtains catalog where "list_modes d = Inr catalog" "set catalog = mode_tuple ` set dms"
    "distinct catalog" "sorted (map (\<lambda>(w, h, bpp, r). (w, h, r, bpp)) catalog)"
proof
  show "list_modes d = Inr (sort_key (\<lambda>(w, h, bpp, r). (w, h, r, bpp)) (remdups (map mode_tuple dms)))"
    using list_modes_loop_all_ok [OF assms, of 0 "[]"] by (simp add: list_modes_def)
qed simp_all

lemma list_modes_raises:
  "mode_answers d = map Inr dms @ Inl e # rest \<Longrightarrow> list_modes d = Inl e"
  using list_modes_loop_raises [of d dms e rest 0 "[]"] by (simp add: list_modes_def)

lemma list_modes_loop_range:
  "list_modes_loop d i acc = Inr modes \<Longrightarrow> set modes \<subseteq> set acc \<union> range mode_tuple"
proof (induction d i acc rule: list_modes_loop.induct)
  case (1 d i modes')
  show ?case
  proof (cases "EnumDisplaySettingsW d (int i)")
    case (Inl e)
    with "1.prems" show ?thesis by (simp add: list_modes_loop.simps [of d i modes'])
  next
    case (Inr r)
    show ?thesis
    proof (cases r)
      case None
      with Inr "1.prems" show ?thesis by (simp add: list_modes_loop.simps [of d i modes'])
    next
      case (Some dm)
      with Inr "1.prems" have "list_modes_loop d (i + 1) (modes' @ [mode_tuple dm]) = Inr modes"
        by (simp add: list_modes_loop.simps [of d i modes'])
      with "1.IH" [OF Inr Some] show ?thesis by auto
    qed
  qed
qed

lemma list_modes_range: "list_modes d = Inr modes \<Longrightarrow> set modes \<subseteq> range mode_tuple"
  using list_modes_loop_range [of d 0 "[]"]
  by (auto simp: list_modes_def split: sum.splits)

lemma rate_fits_DWORD:
  assumes "list_modes d = Inr modes" "(w, h, bpp, r) \<in> set modes"
  shows "uint (word_of_int r :: 32 word) = r"
proof -
  from list_modes_range [OF assms(1)] assms(2) obtain dm where "(w, h, bpp, r) = mode_tuple dm"
    by blast
  then have "r = uint (dmDisplayFrequency dm)" by (simp add: mode_tuple_def)
  then show ?thesis by simp
qed


lemma available_rates_cover:
  assumes "get_current_mode d = Inr (Some dm)" "list_modes d = Inr modes"
  shows "set (rates_at modes (uint (dmPelsWidth dm), uint (dmPelsHeight dm)))
         \<subseteq> set (get_available_refresh_rates d)"
  by (simp add: get_available_refresh_rates_eq [OF assms])

text \<open>
  Claim C1. A target outside the rates of the current resolution
  (\<open>get_available_refresh_rates\<close>) never reaches \<^verbatim>\<open>ChangeDisplaySettingsExW\<close>: no test
  call and no commit call is made. When the current mode can be read and the modes can be
  enumerated, \<open>set_refresh_rate\<close> raises the "not supported" error, which carries the
  requested rate, the current resolution and the sorted valid rates.
\<close>

theorem set_refresh_rate_rejects_unsupported:
  assumes "target_hz \<notin> set (get_available_refresh_rates d)"
  shows "fst (set_refresh_rate target_hz test_first d) = [] \<and>
     (get_current_mode d = Inr (Some dm) \<and> list_modes d = Inr modes \<longrightarrow>
        (\<exists>valid.
           set_refresh_rate target_hz test_first d =
             ([], Inl (RuntimeError (Requested_not_supported target_hz
                    (uint (dmPelsWidth dm), uint (dmPelsHeight dm)) valid))) \<and>
           set valid =
             {r. \<exists>bpp. (uint (dmPelsWidth dm), uint (dmPelsHeight dm), bpp, r) \<in> set modes} \<and>
           sorted valid \<and> distinct valid))"
proof -
  have rejected: "set_refresh_rate target_hz test_first d =
      ([], Inl (RuntimeError (Requested_not_supported target_hz
                  (uint (dmPelsWidth dm), uint (dmPelsHeight dm))
                  (sort (remdups (rates_at modes (uint (dmPelsWidth dm), uint (dmPelsHeight dm))))))))"
    if "get_current_mode d = Inr (Some dm)" "list_modes d = Inr modes" for dm modes
  proof -
    from assms available_rates_cover [OF that]
    have "target_hz \<notin> set (rates_at modes (uint (dmPelsWidth dm), uint (dmPelsHeight dm)))"
      by blast
    then show ?thesis
      by (rule set_refresh_rate_invalid [OF that])
  qed
  have no_call: "fst (set_refresh_rate target_hz test_first d) = []"
  proof (cases "get_current_mode d")
    case (Inl e)
    then show ?thesis by (simp add: set_refresh_rate_def)
  next
    case (Inr cur)
    show ?thesis
    proof (cases cur)
      case None
      with Inr show ?thesis by (simp add: set_refresh_rate_def)
    next
      case (Some dm')
      with Inr have cur: "get_current_mode d = Inr (Some dm')" by simp
      show ?thesis
      proof (cases "list_modes d")
        case (Inl e)
        with cur show ?thesis by (simp add: set_refresh_rate_def)
      next
        case (Inr modes')
        from rejected [OF cur Inr] show ?thesis by simp
      qed
    qed
  qed
  have "\<exists>valid.
      set_refresh_rate target_hz test_first d =
        ([], Inl (RuntimeError (Requested_not_supported target_hz
               (uint (dmPelsWidth dm), uint (dmPelsHeight dm)) valid))) \<and>
      set valid = {r. \<exists>bpp. (uint (dmPelsWidth dm), uint (dmPelsHeight dm), bpp, r) \<in> set modes} \<and>
      sorted valid \<and> distinct valid"
    if "get_current_mode d = Inr (Some dm)" "list_modes d = Inr modes"
  proof -
    let ?valid = "sort (remdups (rates_at modes (uint (dmPelsWidth dm), uint (dmPelsHeight dm))))"
    have "set ?valid =
        {r. \<exists>bpp. (uint (dmPelsWidth dm), uint (dmPelsHeight dm), bpp, r) \<in> set modes}"
      by (simp add: set_rates_at)
    moreover have "sorted ?valid" and "distinct ?valid"
      by simp_all
    ultimately show ?thesis
      using rejected [OF that] by blast
  qed
  with no_call show ?thesis by blast
qed

theorem set_refresh_rate_rejects_unsupported_witness:
  "240 \<notin> set (get_available_refresh_rates
                (driver (full_hd 60) [full_hd 60, full_hd 144, full_hd 60, quad_hd 240] 0 0)) \<and>
   get_current_mode (driver (full_hd 60) [full_hd 60, full_hd 144, full_hd 60, quad_hd 240] 0 0)
     = Inr (Some (full_hd 60)) \<and>
   list_modes (driver (full_hd 60) [full_hd 60, full_hd 144, full_hd 60, quad_hd 240] 0 0)
     = Inr [(1920, 1080, 32, 60), (1920, 1080, 32, 144), (2560, 1440, 32, 240)] \<and>
   fst (set_refresh_rate 240 True
          (driver (full_hd 60) [full_hd 60, full_hd 144, full_hd 60, quad_hd 240] 0 0)) = [] \<and>
   (\<exists>valid.
      set_refresh_rate 240 True
        (driver (full_hd 60) [full_hd 60, full_hd 144, full_hd 60, quad_hd 240] 0 0) =
        ([], Inl (RuntimeError (Requested_not_supported 240 (1920, 1080) valid))) \<and>
      set valid = {60, 144})"
proof -
  define d where "d = driver (full_hd 60) [full_hd 60, full_hd 144, full_hd 60, quad_hd 240] 0 0"
  define modes :: "mode list"
    where "modes = [(1920, 1080, 32, 60), (1920, 1080, 32, 144), (2560, 1440, 32, 240)]"
  have cur: "get_current_mode d = Inr (Some (full_hd 60))"
    by (simp add: d_def driver_def get_current_mode_def EnumDisplaySettingsW_def)
  have "list_modes (driver (full_hd 60) [full_hd 60, full_hd 144, full_hd 60, quad_hd 240] 0 0) =
      Inr [(1920, 1080, 32, 60), (1920, 1080, 32, 144), (2560, 1440, 32, 240)]"
    by code_simp
  then have modes: "list_modes d = Inr modes"
    by (simp only: d_def modes_def)
  have "get_available_refresh_rates
      (driver (full_hd 60) [full_hd 60, full_hd 144, full_hd 60, quad_hd 240] 0 0) = [60, 144]"
    by code_simp
  then have out: "240 \<notin> set (get_available_refresh_rates d)"
    by (simp add: d_def)
  have res: "uint (dmPelsWidth (full_hd 60)) = 1920" "uint (dmPelsHeight (full_hd 60)) = 1080"
    by (simp_all add: full_hd_def)
  have valid: "{r. \<exists>bpp. (1920, 1080, bpp, r) \<in> set modes} = {60, 144}"
    by (auto simp: modes_def)
  note inst = set_refresh_rate_rejects_unsupported [OF out, of True "full_hd 60" modes]
  from inst have no_call: "fst (set_refresh_rate 240 True d) = []"
    by (rule conjunct1)
  from inst [THEN conjunct2] cur modes
  have "\<exists>valid.
      set_refresh_rate 240 True d =
        ([], Inl (RuntimeError (Requested_not_supported 240 (1920, 1080) valid))) \<and>
      set valid = {60, 144}"
    unfolding res valid by blast
  with out cur modes no_call show ?thesis
    unfolding d_def modes_def by blast
qed

text \<open>
  Claim C2. With \<open>test_first\<close> on and a target that passed validation, the candidate is
  the current mode, as the driver reports it when it is read into the new structure, with
  the frequency replaced by the target (and the frequency bit set in \<open>dmFields\<close>). A test
  that does not return 0 raises "test-change failed" with the status, after the single
  test call and without a commit call; otherwise the same candidate is committed, and a
  commit that does not return 0 raises "change failed" with its status. When that second
  reading of the current mode fails, no call is made at all.
\<close>

theorem set_refresh_rate_tests_before_commit:
  assumes "get_current_mode d = Inr (Some dm)" and "list_modes d = Inr modes"
    and "(uint (dmPelsWidth dm), uint (dmPelsHeight dm), bpp, target_hz) \<in> set modes"
  shows "(current_settings_reread d = Inr (Some cur) \<longrightarrow>
           (let cand = cur\<lparr>dmDisplayFrequency := word_of_int target_hz,
                            dmFields := dmFields cur OR DM_DISPLAYFREQUENCY\<rparr>;
                test = ChangeDisplaySettingsExW cand CDS_TEST;
                commit = ChangeDisplaySettingsExW cand 0
            in mode_tuple cand =
                 (uint (dmPelsWidth cur), uint (dmPelsHeight cur), uint (dmBitsPerPel cur),
                  target_hz) \<and>
               set_refresh_rate target_hz True d =
                 (if change_status d cand CDS_TEST \<noteq> 0
                  then ([test],
                        Inl (RuntimeError (Test_change_failed (change_status d cand CDS_TEST))))
                  else if change_status d cand 0 \<noteq> 0
                  then ([test, commit],
                        Inl (RuntimeError (Change_failed (change_status d cand 0))))
                  else ([test, commit], Inr True)))) \<and>
         (current_settings_reread d = Inr None \<longrightarrow>
            set_refresh_rate target_hz True d =
              ([], Inl (RuntimeError Unable_to_read_current_settings_into_new_DEVMODE))) \<and>
         (current_settings_reread d = Inl e \<longrightarrow>
            set_refresh_rate target_hz True d = ([], Inl e))"
proof -
  let ?res = "(uint (dmPelsWidth dm), uint (dmPelsHeight dm))"
  let ?cand = "cur\<lparr>dmDisplayFrequency := word_of_int target_hz,
                    dmFields := dmFields cur OR DM_DISPLAYFREQUENCY\<rparr>"
  from assms(3) have valid: "target_hz \<in> set (rates_at modes ?res)"
    by (auto simp: set_rates_at)
  have "uint (word_of_int target_hz :: 32 word) = target_hz"
    by (rule rate_fits_DWORD [OF assms(2,3)])
  then have tuple: "mode_tuple ?cand =
      (uint (dmPelsWidth cur), uint (dmPelsHeight cur), uint (dmBitsPerPel cur), target_hz)"
    by (simp add: mode_tuple_def)
  have changed: "set_refresh_rate target_hz True d =
      (if change_status d ?cand CDS_TEST \<noteq> 0
       then ([ChangeDisplaySettingsExW ?cand CDS_TEST],
             Inl (RuntimeError (Test_change_failed (change_status d ?cand CDS_TEST))))
       else if change_status d ?cand 0 \<noteq> 0
       then ([ChangeDisplaySettingsExW ?cand CDS_TEST, ChangeDisplaySettingsExW ?cand 0],
             Inl (RuntimeError (Change_failed (change_status d ?cand 0))))
       else ([ChangeDisplaySettingsExW ?cand CDS_TEST, ChangeDisplaySettingsExW ?cand 0],
             Inr True))"
    if "current_settings_reread d = Inr (Some cur)"
    using set_refresh_rate_valid [OF assms(1,2) valid that refl, of True]
    by (simp add: DISP_CHANGE_SUCCESSFUL_def)
  from tuple changed set_refresh_rate_reread_failed [OF assms(1,2) valid, where test_first = True]
  show ?thesis
    unfolding Let_def by blast
qed

theorem set_refresh_rate_tests_before_commit_witness:
  "get_current_mode (driver (full_hd 60) [full_hd 60, full_hd 144] (- 2) 0) = Inr (Some (full_hd 60)) \<and>
   list_modes (driver (full_hd 60) [full_hd 60, full_hd 144] (- 2) 0) =
     Inr [(1920, 1080, 32, 60), (1920, 1080, 32, 144)] \<and>
   (uint (dmPelsWidth (full_hd 60)), uint (dmPelsHeight (full_hd 60)), 32, 144)
     \<in> set ([(1920, 1080, 32, 60), (1920, 1080, 32, 144)] :: mode list) \<and>
   current_settings_reread (driver (full_hd 60) [full_hd 60, full_hd 144] (- 2) 0) =
     Inr (Some (full_hd 60)) \<and>
   set_refresh_rate 144 True (driver (full_hd 60) [full_hd 60, full_hd 144] (- 2) 0) =
     ([ChangeDisplaySettingsExW (full_hd 144) CDS_TEST],
      Inl (RuntimeError (Test_change_failed (- 2)))) \<and>
   set_refresh_rate 144 True (driver (full_hd 60) [full_hd 60, full_hd 144] 0 (- 1)) =
     ([ChangeDisplaySettingsExW (full_hd 144) CDS_TEST, ChangeDisplaySettingsExW (full_hd 144) 0],
      Inl (RuntimeError (Change_failed (- 1)))) \<and>
   set_refresh_rate 144 True (driver (full_hd 60) [full_hd 60, full_hd 144] 0 0) =
     ([ChangeDisplaySettingsExW (full_hd 144) CDS_TEST, ChangeDisplaySettingsExW (full_hd 144) 0],
      Inr True) \<and>
   set_refresh_rate 144 True
     (driver (full_hd 60) [full_hd 60, full_hd 144] 0 0
        \<lparr>current_settings_reread := Inr (Some (quad_hd 60))\<rparr>) =
     ([ChangeDisplaySettingsExW (quad_hd 144) CDS_TEST, ChangeDisplaySettingsExW (quad_hd 144) 0],
      Inr True) \<and>
   set_refresh_rate 144 True
     (driver (full_hd 60) [full_hd 60, full_hd 144] 0 0\<lparr>current_settings_reread := Inr None\<rparr>) =
     ([], Inl (RuntimeError Unable_to_read_current_settings_into_new_DEVMODE)) \<and>
   set_refresh_rate 144 True
     (driver (full_hd 60) [full_hd 60, full_hd 144] 0 0\<lparr>current_settings_reread := Inl OSError\<rparr>) =
     ([], Inl OSError)"
proof -
  let ?d = "\<lambda>t c. driver (full_hd 60) [full_hd 60, full_hd 144] t c"
  let ?moved = "?d 0 0\<lparr>current_settings_reread := Inr (Some (quad_hd 60))\<rparr>"
  let ?lost = "?d 0 0\<lparr>current_settings_reread := Inr None\<rparr>"
  let ?raising = "?d 0 0\<lparr>current_settings_reread := Inl OSError\<rparr>"
  let ?modes = "[(1920, 1080, 32, 60), (1920, 1080, 32, 144)] :: mode list"
  have cur: "get_current_mode (?d t c) = Inr (Some (full_hd 60))" for t c
    by (simp add: driver_def get_current_mode_def EnumDisplaySettingsW_def)
  have cur': "get_current_mode ?moved = Inr (Some (full_hd 60))"
    "get_current_mode ?lost = Inr (Some (full_hd 60))"
    "get_current_mode ?raising = Inr (Some (full_hd 60))"
    by (simp_all add: driver_def get_current_mode_def EnumDisplaySettingsW_def)
  have again: "current_settings_reread (?d t c) = Inr (Some (full_hd 60))" for t c
    by (simp add: driver_def)
  have again': "current_settings_reread ?moved = Inr (Some (quad_hd 60))"
    "current_settings_reread ?lost = Inr None" "current_settings_reread ?raising = Inl OSError"
    by simp_all
  have modes: "list_modes (?d (- 2) 0) = Inr ?modes" "list_modes (?d 0 (- 1)) = Inr ?modes"
    "list_modes (?d 0 0) = Inr ?modes"
    by code_simp+
  have modes': "list_modes ?moved = Inr ?modes" "list_modes ?lost = Inr ?modes"
    "list_modes ?raising = Inr ?modes"
    by code_simp+
  have mem: "(uint (dmPelsWidth (full_hd 60)), uint (dmPelsHeight (full_hd 60)), 32, 144) \<in> set ?modes"
    by (simp add: full_hd_def)
  have cand: "full_hd 60\<lparr>dmDisplayFrequency := 144,
                 dmFields := dmFields (full_hd 60) OR DM_DISPLAYFREQUENCY\<rparr> = full_hd 144"
    "quad_hd 60\<lparr>dmDisplayFrequency := 144,
                 dmFields := dmFields (quad_hd 60) OR DM_DISPLAYFREQUENCY\<rparr> = quad_hd 144"
    by (simp_all add: full_hd_def quad_hd_def DM_DISPLAYFREQUENCY_def)
  have status: "change_status (?d t c) dm CDS_TEST = t" "change_status (?d t c) dm 0 = c" for t c dm
    by (simp_all add: driver_def CDS_TEST_def)
  have status': "change_status ?moved dm CDS_TEST = 0" "change_status ?moved dm 0 = 0" for dm
    by (simp_all add: driver_def CDS_TEST_def)
  have res: "uint (dmPelsWidth (full_hd 60)) = 1920" "uint (dmPelsHeight (full_hd 60)) = 1080"
    by (simp_all add: full_hd_def)
  note rejected = set_refresh_rate_tests_before_commit
    [OF cur modes(1) mem, of "full_hd 60", THEN conjunct1, rule_format, OF again]
  note failed = set_refresh_rate_tests_before_commit
    [OF cur modes(2) mem, of "full_hd 60", THEN conjunct1, rule_format, OF again]
  note changed = set_refresh_rate_tests_before_commit
    [OF cur modes(3) mem, of "full_hd 60", THEN conjunct1, rule_format, OF again]
  note moved = set_refresh_rate_tests_before_commit
    [OF cur'(1) modes'(1) mem, of "quad_hd 60", THEN conjunct1, rule_format, OF again'(1)]
  note lost = set_refresh_rate_tests_before_commit
    [OF cur'(2) modes'(2) mem, THEN conjunct2, THEN conjunct1, rule_format, OF again'(2)]
  note raising = set_refresh_rate_tests_before_commit
    [OF cur'(3) modes'(3) mem, of _ OSError, THEN conjunct2, THEN conjunct2, rule_format,
     OF again'(3)]
  have "set_refresh_rate 144 True ?moved =
      ([ChangeDisplaySettingsExW (quad_hd 144) CDS_TEST, ChangeDisplaySettingsExW (quad_hd 144) 0],
       Inr True)"
    using moved by (simp add: Let_def cand status status')
  with rejected failed changed lost raising show ?thesis
    by (simp add: Let_def cand status cur modes res again)
qed

lemma get_available_refresh_rates_fallback:
  "get_current_mode d = Inl e \<Longrightarrow> get_available_refresh_rates d = fallback_rates"
  "get_current_mode d = Inr None \<Longrightarrow> get_available_refresh_rates d = fallback_rates"
  "list_modes d = Inl e \<Longrightarrow> get_available_refresh_rates d = fallback_rates"
  by (simp_all add: get_available_refresh_rates_def split: sum.splits option.splits)

lemma get_available_refresh_rates_nonempty: "get_available_refresh_rates d \<noteq> []"
proof (cases "get_current_mode d")
  case (Inl e)
  then show ?thesis
    by (simp add: get_available_refresh_rates_fallback fallback_rates_def)
next
  case (Inr cur)
  show ?thesis
  proof (cases cur)
    case None
    with Inr show ?thesis
      by (simp add: get_available_refresh_rates_fallback fallback_rates_def)
  next
    case (Some dm)
    with Inr have cur: "get_current_mode d = Inr (Some dm)" by simp
    show ?thesis
    proof (cases "list_modes d")
      case (Inl e)
      then show ?thesis
        by (simp add: get_available_refresh_rates_fallback fallback_rates_def)
    next
      case (Inr modes)
      from get_available_refresh_rates_eq [OF cur Inr] show ?thesis
        by (simp add: fallback_rates_def sort_remdups_Nil)
    qed
  qed
qed

text \<open>
  Claim C6. \<open>get_available_refresh_rates\<close> never returns an empty sequence. It returns
  60, 120, 144, 165, 240 when the current mode cannot be read, when a call raises (the
  query or any step of the enumeration) and when no enumerated mode has the current
  resolution; otherwise it returns the rates of the enumerated modes at the current
  resolution, sorted and without duplicates.
\<close>

theorem get_available_refresh_rates_never_empty:
  "get_available_refresh_rates d \<noteq> [] \<and>
   (get_current_mode d = Inl e \<longrightarrow>
      get_available_refresh_rates d = [60, 120, 144, 165, 240]) \<and>
   (get_current_mode d = Inr None \<longrightarrow>
      get_available_refresh_rates d = [60, 120, 144, 165, 240]) \<and>
   (list_modes d = Inl e' \<longrightarrow>
      get_available_refresh_rates d = [60, 120, 144, 165, 240]) \<and>
   (mode_answers d = map Inr dms @ Inl e'' # rest \<longrightarrow>
      get_available_refresh_rates d = [60, 120, 144, 165, 240]) \<and>
   (get_current_mode d = Inr (Some dm) \<and> list_modes d = Inr modes \<longrightarrow>
      (let rates = {r. \<exists>bpp. (uint (dmPelsWidth dm), uint (dmPelsHeight dm), bpp, r) \<in> set modes}
       in if rates = {} then get_available_refresh_rates d = [60, 120, 144, 165, 240]
          else set (get_available_refresh_rates d) = rates \<and>
               sorted (get_available_refresh_rates d) \<and>
               distinct (get_available_refresh_rates d)))"
proof -
  have normal: "if {r. \<exists>bpp. (uint (dmPelsWidth dm), uint (dmPelsHeight dm), bpp, r) \<in> set modes} = {}
        then get_available_refresh_rates d = fallback_rates
        else set (get_available_refresh_rates d) =
               {r. \<exists>bpp. (uint (dmPelsWidth dm), uint (dmPelsHeight dm), bpp, r) \<in> set modes} \<and>
             sorted (get_available_refresh_rates d) \<and> distinct (get_available_refresh_rates d)"
    if "get_current_mode d = Inr (Some dm)" "list_modes d = Inr modes"
  proof -
    let ?valid = "rates_at modes (uint (dmPelsWidth dm), uint (dmPelsHeight dm))"
    have "?valid = [] \<longleftrightarrow> set ?valid = {}" by simp
    then show ?thesis
      unfolding get_available_refresh_rates_eq [OF that] set_rates_at [symmetric]
      by simp
  qed
  show ?thesis
    using get_available_refresh_rates_nonempty [of d]
      get_available_refresh_rates_fallback [of d] normal list_modes_raises [of d]
    by (simp add: fallback_rates_def Let_def)
qed

theorem get_available_refresh_rates_never_empty_witness:
  "get_current_mode (driver (full_hd 60) [] 0 0\<lparr>current_settings := Inl OSError\<rparr>) = Inl OSError \<and>
   get_available_refresh_rates (driver (full_hd 60) [] 0 0\<lparr>current_settings := Inl OSError\<rparr>)
     = [60, 120, 144, 165, 240] \<and>
   get_current_mode (driver (full_hd 60) [] 0 0\<lparr>current_settings := Inr None\<rparr>) = Inr None \<and>
   get_available_refresh_rates (driver (full_hd 60) [] 0 0\<lparr>current_settings := Inr None\<rparr>)
     = [60, 120, 144, 165, 240] \<and>
   mode_answers (driver (full_hd 60) [] 0 0\<lparr>mode_answers := [Inr (full_hd 60), Inl OSError]\<rparr>)
     = map Inr [full_hd 60] @ Inl OSError # [] \<and>
   list_modes (driver (full_hd 60) [] 0 0\<lparr>mode_answers := [Inr (full_hd 60), Inl OSError]\<rparr>)
     = Inl OSError \<and>
   get_available_refresh_rates
     (driver (full_hd 60) [] 0 0\<lparr>mode_answers := [Inr (full_hd 60), Inl OSError]\<rparr>)
     = [60, 120, 144, 165, 240] \<and>
   get_current_mode (driver (full_hd 60) [quad_hd 60, quad_hd 240] 0 0) = Inr (Some (full_hd 60)) \<and>
   list_modes (driver (full_hd 60) [quad_hd 60, quad_hd 240] 0 0)
     = Inr [(2560, 1440, 32, 60), (2560, 1440, 32, 240)] \<and>
   get_available_refresh_rates (driver (full_hd 60) [quad_hd 60, quad_hd 240] 0 0)
     = [60, 120, 144, 165, 240] \<and>
   get_current_mode (driver (full_hd 60) [full_hd 144, quad_hd 60, full_hd 60, full_hd 144] 0 0)
     = Inr (Some (full_hd 60)) \<and>
   list_modes (driver (full_hd 60) [full_hd 144, quad_hd 60, full_hd 60, full_hd 144] 0 0)
     = Inr [(1920, 1080, 32, 60), (1920, 1080, 32, 144), (2560, 1440, 32, 60)] \<and>
   set (get_available_refresh_rates
         (driver (full_hd 60) [full_hd 144, quad_hd 60, full_hd 60, full_hd 144] 0 0)) = {60, 144} \<and>
   get_available_refresh_rates
     (driver (full_hd 60) [full_hd 144, quad_hd 60, full_hd 60, full_hd 144] 0 0) \<noteq> []"
proof -
  let ?a = "driver (full_hd 60) [] 0 0\<lparr>current_settings := Inl OSError\<rparr>"
  let ?b = "driver (full_hd 60) [] 0 0\<lparr>current_settings := Inr None\<rparr>"
  let ?c = "driver (full_hd 60) [] 0 0\<lparr>mode_answers := [Inr (full_hd 60), Inl OSError]\<rparr>"
  let ?d = "driver (full_hd 60) [quad_hd 60, quad_hd 240] 0 0"
  let ?e = "driver (full_hd 60) [full_hd 144, quad_hd 60, full_hd 60, full_hd 144] 0 0"
  have a: "get_current_mode ?a = Inl OSError"
    by (simp add: driver_def get_current_mode_def EnumDisplaySettingsW_def)
  have b: "get_current_mode ?b = Inr None"
    by (simp add: driver_def get_current_mode_def EnumDisplaySettingsW_def)
  have c: "mode_answers ?c = map Inr [full_hd 60] @ Inl OSError # []"
    by (simp add: driver_def)
  have c': "list_modes ?c = Inl OSError"
    by code_simp
  have d: "get_current_mode ?d = Inr (Some (full_hd 60))"
    "list_modes ?d = Inr [(2560, 1440, 32, 60), (2560, 1440, 32, 240)]"
    by code_simp+
  have e: "get_current_mode ?e = Inr (Some (full_hd 60))"
    "list_modes ?e = Inr [(1920, 1080, 32, 60), (1920, 1080, 32, 144), (2560, 1440, 32, 60)]"
    by code_simp+
  have d_set: "{r. \<exists>bpp. (uint (dmPelsWidth (full_hd 60)), uint (dmPelsHeight (full_hd 60)), bpp, r)
       \<in> set ([(2560, 1440, 32, 60), (2560, 1440, 32, 240)] :: mode list)} = {}"
    by (auto simp: full_hd_def)
  have e_set: "{r. \<exists>bpp. (uint (dmPelsWidth (full_hd 60)), uint (dmPelsHeight (full_hd 60)), bpp, r)
       \<in> set ([(1920, 1080, 32, 60), (1920, 1080, 32, 144), (2560, 1440, 32, 60)] :: mode list)}
       = {60, 144}"
    by (auto simp: full_hd_def)
  from get_available_refresh_rates_never_empty [where d = ?a and e = OSError] a
  have ra: "get_available_refresh_rates ?a = [60, 120, 144, 165, 240]" by blast
  from get_available_refresh_rates_never_empty [where d = ?b] b
  have rb: "get_available_refresh_rates ?b = [60, 120, 144, 165, 240]" by blast
  from get_available_refresh_rates_never_empty
    [where d = ?c and dms = "[full_hd 60]" and e'' = OSError and rest = "[]"] c
  have rc: "get_available_refresh_rates ?c = [60, 120, 144, 165, 240]" by blast
  note at_d = get_available_refresh_rates_never_empty
    [where d = ?d and dm = "full_hd 60" and modes = "[(2560, 1440, 32, 60), (2560, 1440, 32, 240)]",
     unfolded Let_def d_set]
  from at_d d have rd: "get_available_refresh_rates ?d = [60, 120, 144, 165, 240]"
    by simp
  note at_e = get_available_refresh_rates_never_empty
    [where d = ?e and dm = "full_hd 60"
       and modes = "[(1920, 1080, 32, 60), (1920, 1080, 32, 144), (2560, 1440, 32, 60)]",
     unfolded Let_def e_set]
  from at_e e have re: "set (get_available_refresh_rates ?e) = {60, 144}"
    and ne: "get_available_refresh_rates ?e \<noteq> []"
    by simp_all
  show ?thesis
    using a b c c' d e ra rb rc rd re ne by blast
qed

section \<open>The polling loop and the Apply button\<close>


lemma auto_target_total:
  "rates \<noteq> [] \<Longrightarrow> \<exists>target. auto_target b rates = Inr target"
  by (cases rates) (simp_all add: auto_target_def)

lemma available_rates_init_nonempty: "available_rates (RefreshGUI_init d) \<noteq> []"
  using get_available_refresh_rates_nonempty [of d]
  by (simp add: RefreshGUI_init_def Let_def)

lemma poll_step_failed:
  "is_plugged_in (power_status t) = Inl e \<Longrightarrow>
     poll_step rates last_plugged t = ([Status_text ''Unknown''], Inr None)"
  by (simp add: poll_step_def)

lemma poll_step_unchanged:
  "is_plugged_in (power_status t) = Inr b \<Longrightarrow>
     poll_step rates (Some b) t =
       ([Status_text (if b then ''Plugged In (Charging)'' else ''On Battery (Discharging)'')],
        Inr (Some b))"
  by (cases b) (simp_all add: poll_step_def)

lemma poll_step_override:
  "override t \<Longrightarrow>
     \<exists>text plugged. poll_step rates last_plugged t = ([Status_text text], Inr plugged)"
  by (simp add: poll_step_def Let_def)

lemma poll_step_transition:
  assumes "is_plugged_in (power_status t) = Inr b" and "last_plugged \<noteq> Some b" and "\<not> override t"
    and "auto_target b rates = Inr target"
    and "set_refresh_rate target True (screen t) = (calls, outcome)"
  shows "poll_step rates last_plugged t =
      ([Status_text (if b then ''Plugged In (Charging)'' else ''On Battery (Discharging)''),
        Set_refresh_rate target calls outcome,
        (case outcome of Inr ok \<Rightarrow> Rate_label target | Inl e \<Rightarrow> Show_warning e)],
       Inr (Some b))"
  using assms by (cases outcome; cases last_plugged) (auto simp: poll_step_def)

lemma applies_simps [simp]:
  "applies [] = []"
  "applies (Status_text s # evs) = applies evs"
  "applies (Rate_label r # evs) = applies evs"
  "applies (Show_warning e # evs) = applies evs"
  "applies (Show_error e # evs) = applies evs"
  "applies (Set_refresh_rate target calls outcome # evs) = target # applies evs"
  by (simp_all add: applies_def)

lemma poll_step_transition_applies:
  assumes "is_plugged_in (power_status t) = Inr b" and "last_plugged \<noteq> Some b" and "\<not> override t"
    and "auto_target b rates = Inr target"
  shows "\<exists>evs. poll_step rates last_plugged t = (evs, Inr (Some b)) \<and> applies evs = [target]"
proof -
  obtain calls outcome where "set_refresh_rate target True (screen t) = (calls, outcome)"
    by (cases "set_refresh_rate target True (screen t)")
  from poll_step_transition [OF assms this] show ?thesis
    by (cases outcome) simp_all
qed

lemma poll_step_unchanged_applies:
  "is_plugged_in (power_status t) = Inr b \<Longrightarrow>
     \<exists>evs. poll_step rates (Some b) t = (evs, Inr (Some b)) \<and> applies evs = []"
  by (simp add: poll_step_unchanged)

text \<open>
  Claim C3. With the override off in every iteration, the five power samples plugged in,
  plugged in, on battery, on battery, plugged in, met after start-up
  (\<open>last_plugged = None\<close>), make \<open>poll_loop\<close> invoke \<open>set_refresh_rate\<close> in the first,
  third and fifth iteration only: three invocations, not five.
\<close>

theorem poll_loop_applies_once_per_transition:
  assumes "map (\<lambda>t. is_plugged_in (power_status t)) ticks =
             [Inr True, Inr True, Inr False, Inr False, Inr True]"
    and "\<forall>t \<in> set ticks. \<not> override t"
  shows "\<exists>high low.
      auto_target True (available_rates (RefreshGUI_init d)) = Inr high \<and>
      auto_target False (available_rates (RefreshGUI_init d)) = Inr low \<and>
      map applies (fst (poll_loop (available_rates (RefreshGUI_init d)) None ticks)) =
        [[high], [], [low], [], [high]] \<and>
      length (concat (map applies
        (fst (poll_loop (available_rates (RefreshGUI_init d)) None ticks)))) = 3 \<and>
      snd (poll_loop (available_rates (RefreshGUI_init d)) None ticks) = None"
proof -
  let ?rates = "available_rates (RefreshGUI_init d)"
  from assms(1) obtain t1 t2 t3 t4 t5 where ticks: "ticks = [t1, t2, t3, t4, t5]"
    and p: "is_plugged_in (power_status t1) = Inr True" "is_plugged_in (power_status t2) = Inr True"
      "is_plugged_in (power_status t3) = Inr False" "is_plugged_in (power_status t4) = Inr False"
      "is_plugged_in (power_status t5) = Inr True"
    by (auto simp: map_eq_Cons_conv)
  from assms(2) ticks have ov: "\<not> override t1" "\<not> override t3" "\<not> override t5"
    by simp_all
  from auto_target_total [OF available_rates_init_nonempty]
  obtain high low where high: "auto_target True ?rates = Inr high"
    and low: "auto_target False ?rates = Inr low"
    by blast
  from poll_step_transition_applies [OF p(1) _ ov(1) high, of None]
  obtain e1 where s1: "poll_step ?rates None t1 = (e1, Inr (Some True))" "applies e1 = [high]"
    by auto
  from poll_step_unchanged_applies [OF p(2)]
  obtain e2 where s2: "poll_step ?rates (Some True) t2 = (e2, Inr (Some True))" "applies e2 = []"
    by auto
  from poll_step_transition_applies [OF p(3) _ ov(2) low, of "Some True"]
  obtain e3 where s3: "poll_step ?rates (Some True) t3 = (e3, Inr (Some False))" "applies e3 = [low]"
    by auto
  from poll_step_unchanged_applies [OF p(4)]
  obtain e4 where s4: "poll_step ?rates (Some False) t4 = (e4, Inr (Some False))" "applies e4 = []"
    by auto
  from poll_step_transition_applies [OF p(5) _ ov(3) high, of "Some False"]
  obtain e5 where s5: "poll_step ?rates (Some False) t5 = (e5, Inr (Some True))" "applies e5 = [high]"
    by auto
  have "poll_loop ?rates None ticks = ([e1, e2, e3, e4, e5], None)"
    by (simp add: ticks s1 s2 s3 s4 s5)
  with high low s1 s2 s3 s4 s5 show ?thesis
    by simp
qed

theorem poll_loop_applies_once_per_transition_witness:
  "map (\<lambda>t. is_plugged_in (power_status t))
     [sample 1 False (driver (full_hd 60) [full_hd 60, full_hd 144] 0 0),
      sample 1 False (driver (full_hd 60) [full_hd 60, full_hd 144] 0 0),
      sample 0 False (driver (full_hd 60) [full_hd 60, full_hd 144] 0 0),
      sample 0 False (driver (full_hd 60) [full_hd 60, full_hd 144] 0 0),
      sample 1 False (driver (full_hd 60) [full_hd 60, full_hd 144] 0 0)] =
     [Inr True, Inr True, Inr False, Inr False, Inr True] \<and>
   map applies (fst (poll_loop
     (available_rates (RefreshGUI_init (driver (full_hd 60) [full_hd 60, full_hd 144] 0 0))) None
     [sample 1 False (driver (full_hd 60) [full_hd 60, full_hd 144] 0 0),
      sample 1 False (driver (full_hd 60) [full_hd 60, full_hd 144] 0 0),
      sample 0 False (driver (full_hd 60) [full_hd 60, full_hd 144] 0 0),
      sample 0 False (driver (full_hd 60) [full_hd 60, full_hd 144] 0 0),
      sample 1 False (driver (full_hd 60) [full_hd 60, full_hd 144] 0 0)])) =
     [[144], [], [60], [], [144]]"
proof -
  let ?d = "driver (full_hd 60) [full_hd 60, full_hd 144] 0 0"
  let ?ticks = "[sample 1 False ?d, sample 1 False ?d, sample 0 False ?d, sample 0 False ?d,
                 sample 1 False ?d]"
  have samples: "map (\<lambda>t. is_plugged_in (power_status t)) ?ticks =
      [Inr True, Inr True, Inr False, Inr False, Inr True]"
    by (simp add: sample_def is_plugged_in_def)
  have automatic: "\<forall>t \<in> set ?ticks. \<not> override t"
    by (simp add: sample_def)
  have high: "auto_target True (available_rates (RefreshGUI_init ?d)) = Inr 144"
    and low: "auto_target False (available_rates (RefreshGUI_init ?d)) = Inr 60"
    by code_simp+
  from poll_loop_applies_once_per_transition [OF samples automatic, of ?d] high low
  have "map applies (fst (poll_loop (available_rates (RefreshGUI_init ?d)) None ?ticks)) =
      [[144], [], [60], [], [144]]"
    by auto
  with samples show ?thesis by blast
qed


lemma poll_loop_length: "length (fst (poll_loop rates last_plugged ticks)) \<le> length ticks"
proof (induction ticks arbitrary: last_plugged)
  case Nil
  show ?case by simp
next
  case (Cons t ts)
  obtain evs r where step: "poll_step rates last_plugged t = (evs, r)"
    by (cases "poll_step rates last_plugged t")
  show ?case
  proof (cases r)
    case (Inl e)
    with step show ?thesis by simp
  next
    case (Inr plugged)
    with step Cons.IH [of plugged] show ?thesis
      by (cases "poll_loop rates plugged ts") simp
  qed
qed

lemma poll_loop_override:
  "i < length (fst (poll_loop rates last_plugged ticks)) \<Longrightarrow> override (ticks ! i) \<Longrightarrow>
     applies (fst (poll_loop rates last_plugged ticks) ! i) = []"
proof (induction ticks arbitrary: last_plugged i)
  case Nil
  then show ?case by simp
next
  case (Cons t ts)
  obtain evs r where step: "poll_step rates last_plugged t = (evs, r)"
    by (cases "poll_step rates last_plugged t")
  show ?case
  proof (cases i)
    case 0
    with Cons.prems have "override t" by simp
    from poll_step_override [OF this, of rates last_plugged] step
    have "applies evs = []" by auto
    with 0 step show ?thesis
      by (auto split: sum.splits prod.splits)
  next
    case (Suc j)
    show ?thesis
    proof (cases r)
      case (Inl e)
      with step Suc Cons.prems show ?thesis by simp
    next
      case (Inr plugged)
      obtain rest ended where rest: "poll_loop rates plugged ts = (rest, ended)"
        by (cases "poll_loop rates plugged ts")
      with step Inr Suc Cons.prems have "j < length (fst (poll_loop rates plugged ts))"
        and "override (ts ! j)"
        by simp_all
      from Cons.IH [OF this] rest step Inr Suc show ?thesis
        by simp
    qed
  qed
qed

text \<open>
  Claim C4. An iteration of \<open>poll_loop\<close> in which the override is set invokes
  \<open>set_refresh_rate\<close> not at all, whatever the power samples are; a click on "Apply now"
  while the override is set invokes \<open>set_refresh_rate\<close> once, with the selected rate as
  target.
\<close>

theorem override_suppresses_automatic_apply:
  "(\<forall>i < length (fst (poll_loop rates last_plugged ticks)).
      override (ticks ! i) \<longrightarrow> applies (fst (poll_loop rates last_plugged ticks) ! i) = []) \<and>
   (override_var g \<longrightarrow>
      (\<exists>calls outcome rest.
         set_refresh_rate (selected_rate g) True d = (calls, outcome) \<and>
         on_apply_clicked g p d = Set_refresh_rate (selected_rate g) calls outcome # rest \<and>
         applies (on_apply_clicked g p d) = [selected_rate g]))"
proof -
  have manual: "\<exists>calls outcome rest.
         set_refresh_rate (selected_rate g) True d = (calls, outcome) \<and>
         on_apply_clicked g p d = Set_refresh_rate (selected_rate g) calls outcome # rest \<and>
         applies (on_apply_clicked g p d) = [selected_rate g]"
    if "override_var g"
  proof -
    obtain calls outcome where "set_refresh_rate (selected_rate g) True d = (calls, outcome)"
      by (cases "set_refresh_rate (selected_rate g) True d")
    with that show ?thesis
      by (cases outcome) (simp_all add: on_apply_clicked_def)
  qed
  with poll_loop_override show ?thesis by blast
qed

theorem override_suppresses_automatic_apply_witness:
  "override (sample 1 True (driver (full_hd 60) [full_hd 60, full_hd 144] 0 0)) \<and>
   override (sample 0 True (driver (full_hd 60) [full_hd 60, full_hd 144] 0 0)) \<and>
   map applies (fst (poll_loop [60, 144] None
     [sample 1 True (driver (full_hd 60) [full_hd 60, full_hd 144] 0 0),
      sample 0 True (driver (full_hd 60) [full_hd 60, full_hd 144] 0 0)])) = [[], []] \<and>
   override_var \<lparr>override_var = True, selected_rate = 144, available_rates = [60, 144]\<rparr> \<and>
   applies (on_apply_clicked
     \<lparr>override_var = True, selected_rate = 144, available_rates = [60, 144]\<rparr>
     \<lparr>succeeded = True, ACLineStatus = 0\<rparr>
     (driver (full_hd 60) [full_hd 60, full_hd 144] 0 0)) = [144]"
proof -
  define d where "d = driver (full_hd 60) [full_hd 60, full_hd 144] 0 0"
  define g where "g = \<lparr>override_var = True, selected_rate = 144, available_rates = [60, 144]\<rparr>"
  define trace where "trace = fst (poll_loop [60, 144] None [sample 1 True d, sample 0 True d])"
  have ov: "override (sample 1 True d)" "override (sample 0 True d)"
    by (simp_all add: sample_def)
  have "length (fst (poll_loop [60, 144] None
      [sample 1 True (driver (full_hd 60) [full_hd 60, full_hd 144] 0 0),
       sample 0 True (driver (full_hd 60) [full_hd 60, full_hd 144] 0 0)])) = 2"
    by code_simp
  then have len: "length trace = 2"
    by (simp only: trace_def d_def)
  note inst = override_suppresses_automatic_apply
    [of "[60, 144]" None "[sample 1 True d, sample 0 True d]" g d
        "\<lparr>succeeded = True, ACLineStatus = 0\<rparr>", folded trace_def]
  from inst [THEN conjunct1, rule_format, of 0] inst [THEN conjunct1, rule_format, of 1] len ov
  have quiet: "applies (trace ! 0) = []" "applies (trace ! 1) = []"
    by simp_all
  from len obtain a b where ab: "trace = [a, b]"
    by (auto simp: length_Suc_conv numeral_2_eq_2)
  with quiet have loop: "map applies trace = [[], []]"
    by simp
  have "override_var g" "selected_rate g = 144"
    by (simp_all add: g_def)
  with inst [THEN conjunct2]
  have manual: "applies (on_apply_clicked g \<lparr>succeeded = True, ACLineStatus = 0\<rparr> d) = [144]"
    by auto
  from ov loop manual \<open>override_var g\<close> show ?thesis
    by (simp only: trace_def d_def g_def)
qed

text \<open>
  Claim C7, as stated, fails: for the unknown line status 255 \<open>is_plugged_in\<close> returns
  \<open>False\<close>, the very result it returns for the offline status 0.
\<close>

theorem is_plugged_in_unknown_counterexample:
  "is_plugged_in \<lparr>succeeded = True, ACLineStatus = 255\<rparr> = Inr False \<and>
   is_plugged_in \<lparr>succeeded = True, ACLineStatus = 0\<rparr> = Inr False"
  by (simp add: is_plugged_in_def)

lemma sint_byte_eq_1: "sint (w :: 8 word) = 1 \<longleftrightarrow> w = 1"
proof
  assume "sint w = 1"
  then have "sint w = sint (1 :: 8 word)" by simp
  then show "w = 1" by (simp only: signed_word_eqI)
qed simp

text \<open>
  Claim C7, amended. \<open>is_plugged_in\<close> returns a boolean, \<open>True\<close> exactly when the line
  status is 1; the unknown status 255 gives \<open>False\<close>, as offline does. Only a failed
  query has an outcome of its own, the exception.
\<close>

theorem is_plugged_in_is_online_test:
  "(succeeded p \<longrightarrow> is_plugged_in p = Inr (ACLineStatus p = 1)) \<and>
   (succeeded p \<and> ACLineStatus p = 255 \<longrightarrow> is_plugged_in p = Inr False) \<and>
   (\<not> succeeded p \<longrightarrow> is_plugged_in p = Inl (RuntimeError GetSystemPowerStatus_failed))"
  by (auto simp: is_plugged_in_def sint_byte_eq_1)

theorem is_plugged_in_is_online_test_witness:
  "is_plugged_in \<lparr>succeeded = True, ACLineStatus = 1\<rparr> = Inr True \<and>
   is_plugged_in \<lparr>succeeded = True, ACLineStatus = 255\<rparr> = Inr False \<and>
   is_plugged_in \<lparr>succeeded = False, ACLineStatus = 1\<rparr> =
     Inl (RuntimeError GetSystemPowerStatus_failed)"
  using is_plugged_in_is_online_test [of "\<lparr>succeeded = True, ACLineStatus = 1\<rparr>"]
    is_plugged_in_is_online_test [of "\<lparr>succeeded = True, ACLineStatus = 255\<rparr>"]
    is_plugged_in_is_online_test [of "\<lparr>succeeded = False, ACLineStatus = 1\<rparr>"]
  by simp

text \<open>
  Claim C8, as stated, fails: a failed sample between two plugged-in samples makes the
  loop invoke \<open>set_refresh_rate\<close> again at the second plugged-in sample.
\<close>

theorem failed_sample_counterexample:
  "map applies
     (fst (poll_loop
        (available_rates (RefreshGUI_init (driver (full_hd 60) [full_hd 60, full_hd 144] 0 0)))
        None
        [sample 1 False (driver (full_hd 60) [full_hd 60, full_hd 144] 0 0),
         failed_sample False (driver (full_hd 60) [full_hd 60, full_hd 144] 0 0),
         sample 1 False (driver (full_hd 60) [full_hd 60, full_hd 144] 0 0)])) =
   [[144], [], [144]]"
  by code_simp

text \<open>
  Claim C8, amended. A failed power query is shown as "Unknown" and invokes nothing in its
  own iteration, but it is recorded as the last sample (\<open>None\<close>); the next concrete
  sample is then treated like a first sample and, with the override off, invokes
  \<open>set_refresh_rate\<close>, whatever the power state before the failure was.
\<close>

theorem failed_sample_is_recorded:
  assumes "is_plugged_in (power_status t) = Inl e"
    and "is_plugged_in (power_status t') = Inr b" and "\<not> override t'"
    and "auto_target b rates = Inr target"
  shows "\<exists>evs.
      poll_step rates last_plugged t = ([Status_text ''Unknown''], Inr None) \<and>
      poll_loop rates last_plugged [t, t'] = ([[Status_text ''Unknown''], evs], None) \<and>
      applies evs = [target]"
proof -
  from poll_step_transition_applies [OF assms(2) _ assms(3,4), of None]
  obtain evs where "poll_step rates None t' = (evs, Inr (Some b))" "applies evs = [target]"
    by auto
  with poll_step_failed [OF assms(1), of rates last_plugged] show ?thesis
    by simp
qed

theorem failed_sample_is_recorded_witness:
  "is_plugged_in (power_status (failed_sample False (driver (full_hd 60) [full_hd 60, full_hd 144] 0 0)))
     = Inl (RuntimeError GetSystemPowerStatus_failed) \<and>
   is_plugged_in (power_status (sample 1 False (driver (full_hd 60) [full_hd 60, full_hd 144] 0 0)))
     = Inr True \<and>
   \<not> override (sample 1 False (driver (full_hd 60) [full_hd 60, full_hd 144] 0 0)) \<and>
   auto_target True [60, 144] = Inr 144 \<and>
   (\<exists>evs. poll_loop [60, 144] (Some True)
      [failed_sample False (driver (full_hd 60) [full_hd 60, full_hd 144] 0 0),
       sample 1 False (driver (full_hd 60) [full_hd 60, full_hd 144] 0 0)] =
        ([[Status_text ''Unknown''], evs], None) \<and>
      applies evs = [144])"
proof -
  let ?d = "driver (full_hd 60) [full_hd 60, full_hd 144] 0 0"
  have failed: "is_plugged_in (power_status (failed_sample False ?d)) =
      Inl (RuntimeError GetSystemPowerStatus_failed)"
    by (simp add: failed_sample_def is_plugged_in_def)
  have online: "is_plugged_in (power_status (sample 1 False ?d)) = Inr True"
    by (simp add: sample_def is_plugged_in_def)
  have automatic: "\<not> override (sample 1 False ?d)"
    by (simp add: sample_def)
  have target: "auto_target True [60, 144] = Inr 144"
    by (simp add: auto_target_def)
  from failed_sample_is_recorded [OF failed online automatic target, of "Some True"]
  show ?thesis using failed online automatic target by blast
qed

text \<open>
  Claim C9, as stated, fails: the window starts on a display offering 60 and 120 Hz; at
  the transition the display runs at another resolution offering 60, 144 and 240 Hz. The
  loop asks for 120 Hz, the choice from the rates of start-up, while the rates of the
  moment give 240 Hz.
\<close>

theorem cached_rates_counterexample:
  "map applies
     (fst (poll_loop
        (available_rates (RefreshGUI_init (driver (full_hd 60) [full_hd 60, full_hd 120] 0 0)))
        None
        [sample 1 False (driver (quad_hd 60) [quad_hd 60, quad_hd 144, quad_hd 240] 0 0)])) =
   [[120]] \<and>
   auto_target True
     (get_available_refresh_rates (driver (quad_hd 60) [quad_hd 60, quad_hd 144, quad_hd 240] 0 0)) =
   Inr 240"
  by code_simp

text \<open>
  Claim C9, amended. On every transition handled with the override off, the target is
  the automatic choice from the rates computed once, when the window was created
  (\<open>RefreshGUI_init\<close>), whatever the display offers in the iteration of the transition.
\<close>

theorem transition_uses_startup_rates:
  assumes "is_plugged_in (power_status t) = Inr b" and "last_plugged \<noteq> Some b"
    and "\<not> override t"
  shows "\<exists>target evs.
      auto_target b (get_available_refresh_rates d0) = Inr target \<and>
      poll_step (available_rates (RefreshGUI_init d0)) last_plugged t = (evs, Inr (Some b)) \<and>
      applies evs = [target]"
proof -
  have rates: "available_rates (RefreshGUI_init d0) = get_available_refresh_rates d0"
    by (simp add: RefreshGUI_init_def Let_def)
  from auto_target_total [OF available_rates_init_nonempty, of b d0]
  obtain target where target: "auto_target b (available_rates (RefreshGUI_init d0)) = Inr target"
    by blast
  from poll_step_transition_applies [OF assms target] target rates show ?thesis
    by auto
qed

theorem transition_uses_startup_rates_witness:
  "is_plugged_in (power_status
     (sample 1 False (driver (quad_hd 60) [quad_hd 60, quad_hd 144, quad_hd 240] 0 0))) = Inr True \<and>
   \<not> override (sample 1 False (driver (quad_hd 60) [quad_hd 60, quad_hd 144, quad_hd 240] 0 0)) \<and>
   (\<exists>evs. poll_step
      (available_rates (RefreshGUI_init (driver (full_hd 60) [full_hd 60, full_hd 120] 0 0))) None
      (sample 1 False (driver (quad_hd 60) [quad_hd 60, quad_hd 144, quad_hd 240] 0 0)) =
        (evs, Inr (Some True)) \<and>
      applies evs = [120])"
proof -
  let ?d0 = "driver (full_hd 60) [full_hd 60, full_hd 120] 0 0"
  let ?t = "sample 1 False (driver (quad_hd 60) [quad_hd 60, quad_hd 144, quad_hd 240] 0 0)"
  have online: "is_plugged_in (power_status ?t) = Inr True"
    by (simp add: sample_def is_plugged_in_def)
  have first: "None \<noteq> Some True"
    by simp
  have automatic: "\<not> override ?t"
    by (simp add: sample_def)
  have "auto_target True (get_available_refresh_rates ?d0) = Inr 120"
    by code_simp
  with transition_uses_startup_rates [OF online first automatic, of ?d0]
  show ?thesis using online automatic by auto
qed

lemma poll_loop_unchanged:
  assumes "\<forall>s \<in> set sames. is_plugged_in (power_status s) = Inr b"
  shows "poll_loop rates (Some b) (sames @ rest) =
      (map (\<lambda>s. [Status_text (if b then ''Plugged In (Charging)''
                              else ''On Battery (Discharging)'')]) sames @
         fst (poll_loop rates (Some b) rest),
       snd (poll_loop rates (Some b) rest))"
  using assms
proof (induction sames)
  case Nil
  show ?case by simp
next
  case (Cons s sames)
  then have "is_plugged_in (power_status s) = Inr b" by simp
  note step = poll_step_unchanged [OF this, of rates]
  from Cons show ?case
    by (simp add: step split: prod.splits)
qed

text \<open>
  Claim C10. When \<open>set_refresh_rate\<close> fails on a transition, the iteration shows a
  warning and ends normally with the sample recorded as \<open>last_plugged\<close>; the following
  polls with the same power state invoke nothing, the next poll with the other power state
  invokes \<open>set_refresh_rate\<close> again, and no exception ends the loop.
\<close>

theorem failed_apply_is_not_retried:
  assumes "is_plugged_in (power_status t) = Inr b" and "last_plugged \<noteq> Some b"
    and "\<not> override t"
    and "auto_target b rates = Inr target"
    and "set_refresh_rate target True (screen t) = (calls, Inl e)"
    and "\<forall>s \<in> set sames. is_plugged_in (power_status s) = Inr b"
    and "is_plugged_in (power_status t') = Inr (\<not> b)" and "\<not> override t'"
    and "auto_target (\<not> b) rates = Inr target'"
  shows "poll_step rates last_plugged t =
        ([Status_text (if b then ''Plugged In (Charging)'' else ''On Battery (Discharging)''),
          Set_refresh_rate target calls (Inl e), Show_warning e], Inr (Some b)) \<and>
      map applies (fst (poll_loop rates last_plugged (t # sames @ [t']))) =
        [target] # replicate (length sames) [] @ [[target']] \<and>
      snd (poll_loop rates last_plugged (t # sames @ [t'])) = None"
proof -
  let ?text = "if b then ''Plugged In (Charging)'' else ''On Battery (Discharging)''"
  have first: "poll_step rates last_plugged t =
      ([Status_text ?text, Set_refresh_rate target calls (Inl e), Show_warning e], Inr (Some b))"
    using poll_step_transition [OF assms(1-5)] by simp
  from poll_step_transition_applies [OF assms(7) _ assms(8,9), of "Some b"]
  obtain evs where last: "poll_step rates (Some b) t' = (evs, Inr (Some (\<not> b)))"
    "applies evs = [target']"
    by auto
  have "poll_loop rates (Some b) (sames @ [t']) =
      (map (\<lambda>s. [Status_text ?text]) sames @ [evs], None)"
    by (simp add: poll_loop_unchanged [OF assms(6)] last)
  with first have "poll_loop rates last_plugged (t # sames @ [t']) =
      ([Status_text ?text, Set_refresh_rate target calls (Inl e), Show_warning e] #
         map (\<lambda>s. [Status_text ?text]) sames @ [evs], None)"
    by simp
  with first last show ?thesis
    by (simp add: comp_def map_replicate_const)
qed

theorem failed_apply_is_not_retried_witness:
  "set_refresh_rate 144 True (driver (full_hd 60) [full_hd 60, full_hd 144] (- 2) 0) =
     ([ChangeDisplaySettingsExW (full_hd 144) CDS_TEST],
      Inl (RuntimeError (Test_change_failed (- 2)))) \<and>
   map applies (fst (poll_loop [60, 144] None
     [sample 1 False (driver (full_hd 60) [full_hd 60, full_hd 144] (- 2) 0),
      sample 1 False (driver (full_hd 60) [full_hd 60, full_hd 144] (- 2) 0),
      sample 1 False (driver (full_hd 60) [full_hd 60, full_hd 144] (- 2) 0),
      sample 0 False (driver (full_hd 60) [full_hd 60, full_hd 144] (- 2) 0)])) =
     [[144], [], [], [60]] \<and>
   snd (poll_loop [60, 144] None
     [sample 1 False (driver (full_hd 60) [full_hd 60, full_hd 144] (- 2) 0),
      sample 1 False (driver (full_hd 60) [full_hd 60, full_hd 144] (- 2) 0),
      sample 1 False (driver (full_hd 60) [full_hd 60, full_hd 144] (- 2) 0),
      sample 0 False (driver (full_hd 60) [full_hd 60, full_hd 144] (- 2) 0)]) = None"
proof -
  let ?d = "driver (full_hd 60) [full_hd 60, full_hd 144] (- 2) 0"
  have online: "is_plugged_in (power_status (sample 1 False ?d)) = Inr True"
    by (simp add: sample_def is_plugged_in_def)
  have first: "None \<noteq> Some True"
    by simp
  have automatic: "\<not> override (sample 1 False ?d)" "\<not> override (sample 0 False ?d)"
    by (simp_all add: sample_def)
  have high: "auto_target True [60, 144] = Inr 144" and low: "auto_target (\<not> True) [60, 144] = Inr 60"
    by (simp_all add: auto_target_def)
  have rejected: "set_refresh_rate 144 True (screen (sample 1 False ?d)) =
      ([ChangeDisplaySettingsExW (full_hd 144) CDS_TEST],
       Inl (RuntimeError (Test_change_failed (- 2))))"
    by code_simp
  have same: "\<forall>s \<in> set [sample 1 False ?d, sample 1 False ?d].
      is_plugged_in (power_status s) = Inr True"
    by (simp add: online)
  have offline: "is_plugged_in (power_status (sample 0 False ?d)) = Inr (\<not> True)"
    by (simp add: sample_def is_plugged_in_def)
  from failed_apply_is_not_retried
    [OF online first automatic(1) high rejected same offline automatic(2) low]
  show ?thesis using rejected by (auto simp: sample_def)
qed

end
